theory Spec2Isabelle
  imports
    Main
    "HOL-Library.Sublist"
    "HOL-Library.Multiset"
    "HOL-Library.Char_ord"
    "HOL-Library.List_Lexorder"
    "HOL-Library.Product_Lexorder"
begin

section \<open>nappo: searching NuGet repositories\<close>

text \<open>
  A shallow embedding of \<^verbatim>\<open>src/nappo.py\<close>. Python exceptions are values of
  \<open>error\<close>; a function that may raise returns \<open>error + 'a\<close> with \<open>Inl\<close> for the
  exception. The network is a function from URLs to responses, and the version parser of
  the external \<^verbatim>\<open>packaging\<close> library is a parameter \<open>parse\<close> of every function that
  reaches it (\<open>None\<close> when it raises).
\<close>

subsection \<open>Exceptions\<close>

datatype error =
    AssertionError
  | UnboundLocalError
  | NameError
  | KeyError
  | TypeError
  | IndexError
  | JSONDecodeError
  | VersionParseError

subsection \<open>Strings\<close>

text \<open>\<^verbatim>\<open>s.startswith(p)\<close>, \<^verbatim>\<open>s.endswith(p)\<close> and \<^verbatim>\<open>s[:-1]\<close> of Python.\<close>

definition startswith :: "string \<Rightarrow> string \<Rightarrow> bool" where
  "startswith s p = (take (length p) s = p)"

definition endswith :: "string \<Rightarrow> string \<Rightarrow> bool" where
  "endswith s p = (length p \<le> length s \<and> drop (length s - length p) s = p)"

definition drop_last :: "string \<Rightarrow> string" where
  \<comment> \<open>\<^verbatim>\<open>s[:-1]\<close>; the empty string stays empty.\<close>
  "drop_last s = take (length s - 1) s"

text \<open>
  \<^verbatim>\<open>s.lower()\<close> on ASCII text: the letters A to Z move to a to z, every other
  character stays.
\<close>

definition lower_char :: "char \<Rightarrow> char" where
  "lower_char c =
     (if CHR ''A'' \<le> c \<and> c \<le> CHR ''Z'' then char_of (of_char c + (32::nat)) else c)"

definition lower :: "string \<Rightarrow> string" where
  "lower s = map lower_char s"

subsection \<open>Version matching\<close>

text \<open>
  \<^verbatim>\<open>
  def version_matches(version: str, exact_or_pattern: str):
      return (version == exact_or_pattern) \
             or (exact_or_pattern.endswith('*') and version.startswith(exact_or_pattern[:-1]))
  \<close>
\<close>

definition version_matches :: "string \<Rightarrow> string \<Rightarrow> bool" where
  "version_matches v exact_or_pattern =
     (v = exact_or_pattern
      \<or> (endswith exact_or_pattern ''*'' \<and> startswith v (drop_last exact_or_pattern)))"

subsection \<open>Packages and JSON documents\<close>

text \<open>
  \<^verbatim>\<open>Package = namedtuple('Package', ['name', 'version', 'repository'])\<close>
\<close>

datatype Package = Package (name: string) (version: string) (repository: string)

text \<open>
  The two documents the program reads, with the fields it reads from them. A service
  index is \<^verbatim>\<open>{"resources": [{"@id": ..., "@type": ...}, ...]}\<close> and a search result is
  \<^verbatim>\<open>{"data": [{"id": ..., "versions": [{"@id": ..., "version": ...}, ...]}, ...]}\<close>.
  Both are non-empty dictionaries, so both are true in a Python condition.
\<close>

datatype Resource = Resource (res_type: string) (res_id: string)

datatype VersionEntry = VersionEntry (ver_id: string) (ver_version: string)

datatype PackageEntry = PackageEntry (pkg_id: string) (versions: "VersionEntry list")

datatype document =
    IndexDocument "Resource list"
  | SearchDocument "PackageEntry list"

subsection \<open>Fetching JSON\<close>

text \<open>
  What \<^verbatim>\<open>urllib.request.urlopen(url)\<close> followed by \<^verbatim>\<open>json.load\<close> does at one URL:
  it raises \<^verbatim>\<open>HTTPError\<close> (a response that is not a success), raises \<^verbatim>\<open>URLError\<close>
  (no connection), delivers a body that is not JSON, or delivers a document.
\<close>

datatype response = HTTPError | URLError | MalformedJSON | Body document

type_synonym network = "string \<Rightarrow> response"

text \<open>
  \<^verbatim>\<open>
  def get_json(url: str) -> Optional[Dict[str, Any]]:
      try:
          with urllib.request.urlopen(url) as f:
              return json.load(f)
      except (urllib.error.HTTPError, urllib.error.URLError):
          return None
  \<close>
  \<^verbatim>\<open>json.load\<close> raises \<^verbatim>\<open>json.JSONDecodeError\<close> on a malformed body; that is a
  \<^verbatim>\<open>ValueError\<close>, which the \<^verbatim>\<open>except\<close> clause does not name.
\<close>

definition get_json :: "network \<Rightarrow> string \<Rightarrow> error + document option" where
  "get_json net url =
     (case net url of
        HTTPError \<Rightarrow> Inr None
      | URLError \<Rightarrow> Inr None
      | MalformedJSON \<Rightarrow> Inl JSONDecodeError
      | Body d \<Rightarrow> Inr (Some d))"

subsection \<open>Sorting by a key\<close>

text \<open>
  \<^verbatim>\<open>sorted(xs, key=f)\<close> calls \<open>f\<close> on every element first, in list order (an exception
  of \<open>f\<close> leaves \<^verbatim>\<open>sorted\<close>), then sorts the elements by their keys, stably.
\<close>

primrec map_result :: "('a \<Rightarrow> error + 'b) \<Rightarrow> 'a list \<Rightarrow> error + 'b list" where
  "map_result f [] = Inr []"
| "map_result f (x # xs) =
     (case f x of
        Inl e \<Rightarrow> Inl e
      | Inr y \<Rightarrow> (case map_result f xs of Inl e \<Rightarrow> Inl e | Inr ys \<Rightarrow> Inr (y # ys)))"

definition py_sorted :: "('a \<Rightarrow> error + 'k::linorder) \<Rightarrow> 'a list \<Rightarrow> error + 'a list" where
  "py_sorted key xs =
     (case map_result key xs of
        Inl e \<Rightarrow> Inl e
      | Inr ks \<Rightarrow> Inr (map snd (sort_key fst (zip ks xs))))"

text \<open>
  \<^verbatim>\<open>
  def version_sort_key(version: str):
      return packaging.version.parse(version)
  \<close>
  \<open>parse\<close> stands for \<^verbatim>\<open>packaging.version.parse\<close>: a key of a totally ordered type, or
  \<open>None\<close> when the library rejects the string.
\<close>

definition version_sort_key :: "(string \<Rightarrow> 'k option) \<Rightarrow> string \<Rightarrow> error + 'k" where
  "version_sort_key parse v =
     (case parse v of None \<Rightarrow> Inl VersionParseError | Some k \<Rightarrow> Inr k)"

subsection \<open>Searching one repository\<close>

text \<open>
  \<^verbatim>\<open>
  search_service_url: str
  for r in resources:
      if r['@type'].startswith('SearchQueryService/3.0'):
          search_service_url = r['@id']
  \<close>
  The annotation declares the local variable and binds nothing. The third argument is
  the variable so far, \<open>None\<close> while it is unbound. \<^verbatim>\<open>download_command\<close> runs the same
  loop with the prefix \<^verbatim>\<open>PackageBaseAddress/3.0\<close>.
\<close>

primrec find_service :: "string \<Rightarrow> Resource list \<Rightarrow> string option \<Rightarrow> string option" where
  "find_service type_prefix [] url = url"
| "find_service type_prefix (r # rs) url =
     find_service type_prefix rs
       (if startswith (res_type r) type_prefix then Some (res_id r) else url)"

definition search_query :: "string \<Rightarrow> string \<Rightarrow> string" where
  \<comment> \<open>\<^verbatim>\<open>f'{search_service_url}?q={package_name}&prerelease=true&semVerLevel=2.0.0'\<close>\<close>
  "search_query search_service_url package_name =
     search_service_url @ ''?q='' @ package_name @ ''&prerelease=true&semVerLevel=2.0.0''"

text \<open>
  \<^verbatim>\<open>
  for version in versions:
      if package_version:
          if version_matches(version['version'], package_version):
              result.append(Package(f'{version["@id"]}', f'{version["version"]}', repository_url))
      else:
          result.append(Package(f'{version["@id"]}', f'{version["version"]}', repository_url))
  \<close>
  \<^verbatim>\<open>None\<close> and the empty string are both false in the condition.
\<close>

primrec emit_versions :: "string \<Rightarrow> string option \<Rightarrow> VersionEntry list \<Rightarrow> Package list" where
  "emit_versions repository_url package_version [] = []"
| "emit_versions repository_url package_version (v # vs) =
     (case package_version of
        None \<Rightarrow> [Package (ver_id v) (ver_version v) repository_url]
      | Some pattern \<Rightarrow>
          if pattern = [] then [Package (ver_id v) (ver_version v) repository_url]
          else if version_matches (ver_version v) pattern
          then [Package (ver_id v) (ver_version v) repository_url]
          else [])
     @ emit_versions repository_url package_version vs"

text \<open>
  \<^verbatim>\<open>
  for package in sorted(data, key=lambda p: p['id']):
      versions = package['versions']
      versions = sorted(versions, key=lambda v: version_sort_key(v['version']))
      for version in versions: ...
  \<close>
  The argument is the package list already sorted by identifier.
\<close>

primrec search_results ::
  "(string \<Rightarrow> 'k::linorder option) \<Rightarrow> string \<Rightarrow> string option \<Rightarrow> PackageEntry list
   \<Rightarrow> error + Package list" where
  "search_results parse repository_url package_version [] = Inr []"
| "search_results parse repository_url package_version (p # ps) =
     (case py_sorted (\<lambda>v. version_sort_key parse (ver_version v)) (versions p) of
        Inl e \<Rightarrow> Inl e
      | Inr vs \<Rightarrow>
          (case search_results parse repository_url package_version ps of
             Inl e \<Rightarrow> Inl e
           | Inr rest \<Rightarrow> Inr (emit_versions repository_url package_version vs @ rest)))"

text \<open>
  \<^verbatim>\<open>
  def package_search(repository_url, package_name, package_version):
      assert package_name is not None
      assert package_name != ''
      assert package_version != ''
      j = get_json(repository_url)
      if not j:
          return []
      resources = j['resources']
      ... the loop of find_service ...
      if not search_service_url:
          print(f'error: unable to find a search service at {repository_url}')
          return []
      search_string = f'{search_service_url}?q={package_name}&prerelease=true&semVerLevel=2.0.0'
      j = get_json(search_string)
      if not j:
          return []
      result = []
      data=j['data']
      ... the loop of search_results ...
      return result
  \<close>
  Reading \<^verbatim>\<open>search_service_url\<close> while it is unbound raises \<^verbatim>\<open>UnboundLocalError\<close>; an
  empty string there is false. A document without the key that is read raises
  \<^verbatim>\<open>KeyError\<close>. Strings compare by code point, as \<open>string\<close> does here.
\<close>

definition package_search ::
  "network \<Rightarrow> (string \<Rightarrow> 'k::linorder option) \<Rightarrow> string \<Rightarrow> string option \<Rightarrow> string option
   \<Rightarrow> error + Package list" where
  "package_search net parse repository_url package_name package_version =
     (if package_name = None then Inl AssertionError
      else if package_name = Some [] then Inl AssertionError
      else if package_version = Some [] then Inl AssertionError
      else
        (case get_json net repository_url of
           Inl e \<Rightarrow> Inl e
         | Inr None \<Rightarrow> Inr []
         | Inr (Some (SearchDocument data)) \<Rightarrow> Inl KeyError
         | Inr (Some (IndexDocument resources)) \<Rightarrow>
             (case find_service ''SearchQueryService/3.0'' resources None of
                None \<Rightarrow> Inl UnboundLocalError
              | Some search_service_url \<Rightarrow>
                  if search_service_url = [] then Inr []
                  else
                    (case get_json net (search_query search_service_url (the package_name)) of
                       Inl e \<Rightarrow> Inl e
                     | Inr None \<Rightarrow> Inr []
                     | Inr (Some (IndexDocument rs)) \<Rightarrow> Inl KeyError
                     | Inr (Some (SearchDocument data)) \<Rightarrow>
                         search_results parse repository_url package_version
                           (sort_key pkg_id data)))))"

subsection \<open>The commands\<close>

text \<open>
  \<^verbatim>\<open>
  for repo in repository_urls:
      results.extend(package_search(repo, package_name, package_version))
  \<close>
\<close>

primrec search_all ::
  "network \<Rightarrow> (string \<Rightarrow> 'k::linorder option) \<Rightarrow> string list \<Rightarrow> string option \<Rightarrow> string option
   \<Rightarrow> error + Package list" where
  "search_all net parse [] package_name package_version = Inr []"
| "search_all net parse (repo # repos) package_name package_version =
     (case package_search net parse repo package_name package_version of
        Inl e \<Rightarrow> Inl e
      | Inr found \<Rightarrow>
          (case search_all net parse repos package_name package_version of
             Inl e \<Rightarrow> Inl e
           | Inr rest \<Rightarrow> Inr (found @ rest)))"

definition or_None :: "string option \<Rightarrow> string option" where
  \<comment> \<open>\<^verbatim>\<open>args.package_version or None\<close>\<close>
  "or_None s = (case s of None \<Rightarrow> None | Some t \<Rightarrow> if t = [] then None else Some t)"

text \<open>
  \<^verbatim>\<open>
  def search_command(args) -> None:
      package_name = args.package_name
      package_version = args.package_version or None
      repository_urls = repositories_from_args(args)
      results = []
      for repo in repository_urls:
          results.extend(package_search(repo, package_name, package_version))
      results = sorted(results, key=lambda p: version_sort_key(p.version))
      for result in results:
          print(result)
  \<close>
  The value is the list printed. The repository list is an argument.
\<close>

definition search_command ::
  "network \<Rightarrow> (string \<Rightarrow> 'k::linorder option) \<Rightarrow> string list \<Rightarrow> string \<Rightarrow> string option
   \<Rightarrow> error + Package list" where
  "search_command net parse repository_urls args_package_name args_package_version =
     (case search_all net parse repository_urls (Some args_package_name)
             (or_None args_package_version) of
        Inl e \<Rightarrow> Inl e
      | Inr results \<Rightarrow> py_sorted (\<lambda>p. version_sort_key parse (version p)) results)"

text \<open>
  \<^verbatim>\<open>
  if len(packages) > 1:
      packages = sorted(packages, key=lambda p: version_sort_key(p.version))
  package = packages[0]
  \<close>
\<close>

definition sort_if_many ::
  "(string \<Rightarrow> 'k::linorder option) \<Rightarrow> Package list \<Rightarrow> error + Package list" where
  "sort_if_many parse packages =
     (if length packages > 1
      then py_sorted (\<lambda>p. version_sort_key parse (version p)) packages
      else Inr packages)"

definition first_package :: "Package list \<Rightarrow> error + Package" where
  "first_package packages = (case packages of [] \<Rightarrow> Inl IndexError | p # ps \<Rightarrow> Inr p)"

definition select_package ::
  "(string \<Rightarrow> 'k::linorder option) \<Rightarrow> Package list \<Rightarrow> error + Package" where
  "select_package parse packages =
     (case sort_if_many parse packages of
        Inl e \<Rightarrow> Inl e
      | Inr sorted_packages \<Rightarrow> first_package sorted_packages)"

definition download_url :: "string \<Rightarrow> Package \<Rightarrow> string" where
  \<comment> \<open>\<^verbatim>\<open>f'{content_service_url}/{package.name}/{package.version}/{package.name.lower()}.{package.version.lower()}.nupkg'\<close>\<close>
  "download_url content_service_url package =
     content_service_url @ ''/'' @ name package @ ''/'' @ version package @ ''/''
     @ lower (name package) @ ''.'' @ lower (version package) @ ''.nupkg''"

text \<open>
  \<^verbatim>\<open>
  def download_command(args):
      package_name = args.package_name
      package_version = args.package_version or None
      repository_urls = repositories_from_args(args)
      packages = []
      for repo in repository_urls:
          packages.extend(package_search(repo, package_name, package_version))
      if len(packages) > 1:
          packages = sorted(packages, key=lambda p: version_sort_key(p.version))
      package = packages[0]
      # See https://docs.microsoft.com/en-us/nuget/api/package-base-address-resource#download-package-content-nupkg
      j = get_json(package.repository)
      resources = j['resources']
      content_service_url: str
      for r in resources:
          if r['@type'].startswith('PackageBaseAddress/3.0'):
              content_service_url = r['@id']
      if not content_service_url:
          print(f'error: unable to find a content service at {repository_url}')
          return []
      download_url = f'{content_service_url}/{package.name}/...nupkg'
      ...
      urllib.request.urlretrieve(download_url, filename=filename)
  \<close>
  The value is the URL handed to \<^verbatim>\<open>urlretrieve\<close>. Subscripting \<^verbatim>\<open>None\<close> raises
  \<^verbatim>\<open>TypeError\<close>, and the error message names \<^verbatim>\<open>repository_url\<close>, which this function
  never defines: \<^verbatim>\<open>NameError\<close>.
\<close>

definition download_command ::
  "network \<Rightarrow> (string \<Rightarrow> 'k::linorder option) \<Rightarrow> string list \<Rightarrow> string \<Rightarrow> string option
   \<Rightarrow> error + string" where
  "download_command net parse repository_urls args_package_name args_package_version =
     (case search_all net parse repository_urls (Some args_package_name)
             (or_None args_package_version) of
        Inl e \<Rightarrow> Inl e
      | Inr packages \<Rightarrow>
          (case select_package parse packages of
             Inl e \<Rightarrow> Inl e
           | Inr package \<Rightarrow>
               (case get_json net (repository package) of
                  Inl e \<Rightarrow> Inl e
                | Inr None \<Rightarrow> Inl TypeError
                | Inr (Some (SearchDocument data)) \<Rightarrow> Inl KeyError
                | Inr (Some (IndexDocument resources)) \<Rightarrow>
                    (case find_service ''PackageBaseAddress/3.0'' resources None of
                       None \<Rightarrow> Inl UnboundLocalError
                     | Some content_service_url \<Rightarrow>
                         if content_service_url = [] then Inl NameError
                         else Inr (download_url content_service_url package)))))"

subsection \<open>Version keys\<close>

text \<open>
  Modelled from the spec: \<^verbatim>\<open>packaging.version.parse\<close> and the order of its results
  belong to the external \<^verbatim>\<open>packaging\<close> library, which is not part of the source. The
  specification describes the key: the numeric release segments compare element by
  element with a missing segment read as zero; a pre-release (the suffix after \<open>-\<close>)
  is below the release with the same segments; pre-release identifiers compare one by
  one, a numeric identifier before an alphabetic one, otherwise lexicographically;
  build metadata (after \<open>+\<close>) is ignored; a string with no leading numeric release
  segment (the empty string among them) does not parse. The release is the leading run of
  numeric segments of the dotted text before the first \<open>-\<close>.

  A key is the release without its trailing zeros, then \<open>False\<close> for a pre-release and
  \<open>True\<close> for a release, then the pre-release identifiers. An identifier is
  \<open>(False, n, [])\<close> when numeric and \<open>(True, 0, s)\<close> when alphabetic. The lexicographic
  orders of pairs and lists then give the order described.
\<close>

type_synonym PreIdent = "bool \<times> nat \<times> string"

type_synonym VersionKey = "nat list \<times> bool \<times> PreIdent list"

primrec split_on :: "char \<Rightarrow> string \<Rightarrow> string list" where
  "split_on c [] = [[]]"
| "split_on c (x # xs) =
     (if x = c then [] # split_on c xs
      else (case split_on c xs of [] \<Rightarrow> [[x]] | w # ws \<Rightarrow> (x # w) # ws))"

definition is_digit :: "char \<Rightarrow> bool" where
  "is_digit c = (CHR ''0'' \<le> c \<and> c \<le> CHR ''9'')"

definition numeric :: "string \<Rightarrow> bool" where
  "numeric s = (s \<noteq> [] \<and> list_all is_digit s)"

definition to_nat :: "string \<Rightarrow> nat" where
  "to_nat s = foldl (\<lambda>n c. 10 * n + (of_char c - 48)) 0 s"

definition strip_zeros :: "nat list \<Rightarrow> nat list" where
  "strip_zeros ns = rev (dropWhile (\<lambda>n. n = 0) (rev ns))"

definition pre_ident :: "string \<Rightarrow> PreIdent" where
  "pre_ident s = (if numeric s then (False, to_nat s, []) else (True, 0, s))"

definition version_key :: "nat list \<Rightarrow> PreIdent list option \<Rightarrow> VersionKey" where
  "version_key release pre =
     (case pre of
        None \<Rightarrow> (strip_zeros release, True, [])
      | Some ids \<Rightarrow> (strip_zeros release, False, ids))"

definition parse_version :: "string \<Rightarrow> VersionKey option" where
  "parse_version s =
     (let core = takeWhile (\<lambda>c. c \<noteq> CHR ''+'') s;
          release =
            takeWhile numeric (split_on (CHR ''.'') (takeWhile (\<lambda>c. c \<noteq> CHR ''-'') core));
          suffix = dropWhile (\<lambda>c. c \<noteq> CHR ''-'') core
      in if release = [] then None
         else Some (version_key (map to_nat release)
                      (if suffix = [] then None
                       else Some (map pre_ident (split_on (CHR ''.'') (tl suffix))))))"

section \<open>Properties\<close>

subsection \<open>Strings\<close>

lemma startswith_iff: "startswith s p \<longleftrightarrow> (\<exists>rest. s = p @ rest)"
proof
  assume "startswith s p"
  then have "s = p @ drop (length p) s"
    unfolding startswith_def by (metis append_take_drop_id)
  then show "\<exists>rest. s = p @ rest" ..
next
  assume "\<exists>rest. s = p @ rest"
  then show "startswith s p"
    unfolding startswith_def by auto
qed

lemma endswith_star_iff: "endswith p ''*'' \<longleftrightarrow> (\<exists>pre. p = pre @ ''*'')"
proof
  assume e: "endswith p ''*''"
  then have "p = take (length p - 1) p @ ''*''"
    unfolding endswith_def by (metis One_nat_def append_take_drop_id length_Cons list.size(3))
  then show "\<exists>pre. p = pre @ ''*''" ..
next
  assume "\<exists>pre. p = pre @ ''*''"
  then show "endswith p ''*''"
    unfolding endswith_def by auto
qed

lemma drop_last_snoc: "drop_last (pre @ [c]) = pre"
  by (simp add: drop_last_def)

subsection \<open>Sorting by a key\<close>

lemma map_result_Inl_iff: "(\<exists>e. map_result f xs = Inl e) \<longleftrightarrow> (\<exists>x\<in>set xs. \<exists>e. f x = Inl e)"
  by (induction xs) (auto split: sum.splits)

lemma map_result_total:
  "\<forall>x\<in>set xs. f x = Inr (g x) \<Longrightarrow> map_result f xs = Inr (map g xs)"
  by (induction xs) auto

lemma insort_key_decorated:
  "\<forall>p\<in>set ps. fst p = g (snd p) \<Longrightarrow>
   map snd (insort_key fst (g x, x) ps) = insort_key g x (map snd ps)"
  by (induction ps) auto

lemma sort_key_decorated:
  "(\<forall>p\<in>set (sort_key fst (zip (map g xs) xs)). fst p = g (snd p))
   \<and> map snd (sort_key fst (zip (map g xs) xs)) = sort_key g xs"
proof (induction xs)
  case Nil
  then show ?case by simp
next
  case (Cons x xs)
  then show ?case
    by (simp add: insort_key_decorated set_insort_key)
qed

lemma py_sorted_total:
  assumes "\<forall>x\<in>set xs. key x = Inr (g x)"
  shows "py_sorted key xs = Inr (sort_key g xs)"
  using map_result_total [OF assms] by (simp add: py_sorted_def sort_key_decorated)

lemma py_sorted_Inr_set: "py_sorted key xs = Inr ys \<Longrightarrow> \<forall>x\<in>set xs. \<exists>k. key x = Inr k"
proof -
  assume a: "py_sorted key xs = Inr ys"
  have "\<not> (\<exists>e. map_result key xs = Inl e)"
    using a by (auto simp: py_sorted_def)
  then have "\<forall>x\<in>set xs. \<forall>e. key x \<noteq> Inl e"
    unfolding map_result_Inl_iff by blast
  then show ?thesis
    by (metis sum.exhaust)
qed

lemma py_sorted_Inl_iff: "(\<exists>e. py_sorted key xs = Inl e) \<longleftrightarrow> (\<exists>x\<in>set xs. \<exists>e. key x = Inl e)"
  using map_result_Inl_iff [of key xs] by (auto simp: py_sorted_def split: sum.splits)

subsection \<open>C1: exact or literal-prefix matching\<close>

text \<open>
  C1. \<open>version_matches v p\<close> holds exactly when \<open>v\<close> equals \<open>p\<close>, or \<open>p\<close> ends in a star
  and \<open>v\<close> starts with the text of \<open>p\<close> before that star. So every version matches
  itself, 1.2.3 matches 1.2.*, 1.3.0 does not match 1.2.*, and 1.20.0 matches 1.2*.
\<close>

theorem version_matches_literal_prefix:
  "(version_matches v p \<longleftrightarrow> v = p \<or> (\<exists>pre rest. p = pre @ ''*'' \<and> v = pre @ rest))
   \<and> version_matches v v
   \<and> version_matches ''1.2.3'' ''1.2.*''
   \<and> \<not> version_matches ''1.3.0'' ''1.2.*''
   \<and> version_matches ''1.20.0'' ''1.2*''"
proof -
  have general: "version_matches v p \<longleftrightarrow> v = p \<or> (\<exists>pre rest. p = pre @ ''*'' \<and> v = pre @ rest)"
    for v p
  proof -
    have "endswith p ''*'' \<and> startswith v (drop_last p)
          \<longleftrightarrow> (\<exists>pre rest. p = pre @ ''*'' \<and> v = pre @ rest)"
      by (auto simp: endswith_star_iff startswith_iff drop_last_snoc)
    then show ?thesis
      unfolding version_matches_def by simp
  qed
  have self: "version_matches v v"
    by (simp add: version_matches_def)
  have a: "version_matches ''1.2.3'' ''1.2.*''"
    by (simp add: version_matches_def endswith_def startswith_def drop_last_def)
  have b: "\<not> version_matches ''1.3.0'' ''1.2.*''"
    by (simp add: version_matches_def endswith_def startswith_def drop_last_def)
  have c: "version_matches ''1.20.0'' ''1.2*''"
    by (simp add: version_matches_def endswith_def startswith_def drop_last_def)
  from general self a b c show ?thesis by blast
qed

theorem version_matches_literal_prefix_witness:
  "version_matches ''2.1.0-rc1'' ''2.1.*'' \<and> \<not> version_matches ''2.10'' ''2.1.*''"
proof -
  have "version_matches ''2.1.0-rc1'' ''2.1.*''
        \<longleftrightarrow> ''2.1.0-rc1'' = ''2.1.*''
            \<or> (\<exists>pre rest. ''2.1.*'' = pre @ ''*'' \<and> ''2.1.0-rc1'' = pre @ rest)"
    using version_matches_literal_prefix [of "''2.1.0-rc1''" "''2.1.*''"] by blast
  moreover have "''2.1.*'' = ''2.1.'' @ ''*'' \<and> ''2.1.0-rc1'' = ''2.1.'' @ ''0-rc1''"
    by simp
  ultimately have yes: "version_matches ''2.1.0-rc1'' ''2.1.*''"
    by blast
  have no: "\<not> version_matches ''2.10'' ''2.1.*''"
    by (simp add: version_matches_def endswith_def startswith_def drop_last_def)
  from yes no show ?thesis ..
qed

subsection \<open>The search loop\<close>

lemma map_result_Inl_source: "map_result f xs = Inl e \<Longrightarrow> \<exists>x\<in>set xs. f x = Inl e"
  by (induction xs) (auto split: sum.splits)

lemma py_sorted_Inl_source: "py_sorted key xs = Inl e \<Longrightarrow> \<exists>x\<in>set xs. key x = Inl e"
  by (auto simp: py_sorted_def split: sum.splits dest: map_result_Inl_source)

lemma version_sort_key_Inl: "version_sort_key parse v = Inl e \<Longrightarrow> e = VersionParseError"
  by (auto simp: version_sort_key_def split: option.splits)

lemma sorted_versions_ok:
  assumes "\<forall>x\<in>set xs. parse (f x) \<noteq> None"
  shows "py_sorted (\<lambda>x. version_sort_key parse (f x)) xs
         = Inr (sort_key (\<lambda>x. the (parse (f x))) xs)"
proof (rule py_sorted_total)
  show "\<forall>x\<in>set xs. version_sort_key parse (f x) = Inr (the (parse (f x)))"
    using assms by (auto simp: version_sort_key_def)
qed

lemma sorted_versions_Inl:
  "py_sorted (\<lambda>x. version_sort_key parse (f x)) xs = Inl e \<Longrightarrow> e = VersionParseError"
  by (auto dest!: py_sorted_Inl_source version_sort_key_Inl)

lemma sorted_versions_err:
  assumes "x \<in> set xs" and "parse (f x) = None"
  shows "py_sorted (\<lambda>x. version_sort_key parse (f x)) xs = Inl VersionParseError"
proof -
  have "version_sort_key parse (f x) = Inl VersionParseError"
    using assms(2) by (simp add: version_sort_key_def)
  with assms(1) have "\<exists>e. py_sorted (\<lambda>x. version_sort_key parse (f x)) xs = Inl e"
    unfolding py_sorted_Inl_iff by blast
  then show ?thesis
    using sorted_versions_Inl by blast
qed

lemma sorted_versions_Inr:
  assumes "py_sorted (\<lambda>x. version_sort_key parse (f x)) xs = Inr ys"
  shows "(\<forall>x\<in>set xs. parse (f x) \<noteq> None) \<and> ys = sort_key (\<lambda>x. the (parse (f x))) xs"
proof -
  have all: "\<forall>x\<in>set xs. parse (f x) \<noteq> None"
    using py_sorted_Inr_set [OF assms]
    by (fastforce simp: version_sort_key_def split: option.splits)
  with assms show ?thesis
    by (simp add: sorted_versions_ok)
qed

lemma set_emit_versions:
  "set (emit_versions r spec vs) \<subseteq> (\<lambda>v. Package (ver_id v) (ver_version v) r) ` set vs"
  by (induction vs) (auto split: option.splits)

lemma search_results_Inl: "search_results parse r spec ps = Inl e \<Longrightarrow> e = VersionParseError"
  by (induction ps arbitrary: e) (auto split: sum.splits dest: sorted_versions_Inl)

lemma search_results_ok:
  assumes "\<forall>p\<in>set ps. \<forall>v\<in>set (versions p). parse (ver_version v) \<noteq> None"
  shows "search_results parse r spec ps
         = Inr (concat (map (\<lambda>p. emit_versions r spec
                  (sort_key (\<lambda>v. the (parse (ver_version v))) (versions p))) ps))"
  using assms by (induction ps) (simp_all add: sorted_versions_ok)

lemma search_results_err:
  assumes "p \<in> set ps" and "v \<in> set (versions p)" and "parse (ver_version v) = None"
  shows "search_results parse r spec ps = Inl VersionParseError"
  using assms(1)
proof (induction ps)
  case Nil
  then show ?case by simp
next
  case (Cons q qs)
  show ?case
  proof (cases "q = p")
    case True
    then show ?thesis
      using sorted_versions_err [of v "versions p" parse ver_version] assms(2,3) by simp
  next
    case False
    with Cons have "search_results parse r spec qs = Inl VersionParseError" by simp
    then show ?thesis
      by (auto split: sum.splits dest: sorted_versions_Inl)
  qed
qed

lemma search_results_parsed:
  "search_results parse r spec ps = Inr res \<Longrightarrow> \<forall>q\<in>set res. parse (version q) \<noteq> None"
proof (induction ps arbitrary: res)
  case Nil
  then show ?case by simp
next
  case (Cons p ps)
  from Cons.prems obtain vs rest where
    vs: "py_sorted (\<lambda>v. version_sort_key parse (ver_version v)) (versions p) = Inr vs"
    and rest: "search_results parse r spec ps = Inr rest"
    and res: "res = emit_versions r spec vs @ rest"
    by (auto split: sum.splits)
  from sorted_versions_Inr [OF vs] have "\<forall>v\<in>set vs. parse (ver_version v) \<noteq> None"
    by simp
  then have "\<forall>q\<in>set (emit_versions r spec vs). parse (version q) \<noteq> None"
    using set_emit_versions [of r spec vs] by auto
  with Cons.IH [OF rest] res show ?case by auto
qed

subsection \<open>C10: the assertions at entry\<close>

lemma get_json_Inl: "get_json net url = Inl e \<Longrightarrow> e = JSONDecodeError"
  by (auto simp: get_json_def split: response.splits)

text \<open>
  C10. \<open>package_search\<close> fails an assertion exactly when the package name is \<open>None\<close> or
  empty, or the version argument is the empty string. With a non-empty name and a
  version argument that is \<open>None\<close> or non-empty, no assertion fails.
\<close>

theorem package_search_assertions:
  "package_search net parse repository_url package_name package_version = Inl AssertionError
   \<longleftrightarrow> package_name = None \<or> package_name = Some [] \<or> package_version = Some []"
proof (cases "package_name = None \<or> package_name = Some [] \<or> package_version = Some []")
  case True
  then show ?thesis
    by (auto simp: package_search_def)
next
  case False
  have "package_search net parse repository_url package_name package_version
        \<noteq> Inl AssertionError"
  proof
    assume a: "package_search net parse repository_url package_name package_version
               = Inl AssertionError"
    from a False show False
      unfolding package_search_def
      by (auto split: sum.splits option.splits document.splits if_splits
               dest: get_json_Inl search_results_Inl)
  qed
  with False show ?thesis by simp
qed

theorem package_search_assertions_witness:
  "package_search (\<lambda>u. URLError) parse_version ''r'' (Some '''') None = Inl AssertionError
   \<and> package_search (\<lambda>u. URLError) parse_version ''r'' (Some ''Foo'') (Some '''')
       = Inl AssertionError
   \<and> package_search (\<lambda>u. URLError) parse_version ''r'' (Some ''Foo'') (Some ''1.*'')
       \<noteq> Inl AssertionError"
  using package_search_assertions [of "\<lambda>u. URLError" parse_version "''r''" "Some ''''" None]
    package_search_assertions [of "\<lambda>u. URLError" parse_version "''r''" "Some ''Foo''" "Some ''''"]
    package_search_assertions [of "\<lambda>u. URLError" parse_version "''r''" "Some ''Foo''" "Some ''1.*''"]
  by simp

subsection \<open>C3: which resource the loop resolves\<close>

lemma find_service_append:
  "find_service t (rs @ rs') url = find_service t rs' (find_service t rs url)"
  by (induction rs arbitrary: url) simp_all

lemma find_service_no_match:
  "\<forall>r\<in>set rs. \<not> startswith (res_type r) t \<Longrightarrow> find_service t rs url = url"
  by (induction rs arbitrary: url) simp_all

lemma find_service_last:
  assumes "filter (\<lambda>r. startswith (res_type r) t) rs \<noteq> []"
  shows "find_service t rs url = Some (res_id (last (filter (\<lambda>r. startswith (res_type r) t) rs)))"
  using assms
proof (induction rs arbitrary: url)
  case Nil
  then show ?case by simp
next
  case (Cons r rs)
  show ?case
  proof (cases "filter (\<lambda>r. startswith (res_type r) t) rs = []")
    case True
    then have none: "\<forall>x\<in>set rs. \<not> startswith (res_type x) t"
      by (simp add: filter_empty_conv)
    from Cons.prems True have "startswith (res_type r) t"
      by (auto split: if_splits)
    with True none show ?thesis
      by (simp add: find_service_no_match)
  next
    case False
    from Cons.IH [OF False] False show ?thesis
      by simp
  qed
qed

lemma find_service_unbound:
  "find_service t rs None = None \<longleftrightarrow> (\<forall>r\<in>set rs. \<not> startswith (res_type r) t)"
proof
  assume a: "find_service t rs None = None"
  show "\<forall>r\<in>set rs. \<not> startswith (res_type r) t"
  proof (rule ccontr)
    assume "\<not> (\<forall>r\<in>set rs. \<not> startswith (res_type r) t)"
    then have "filter (\<lambda>r. startswith (res_type r) t) rs \<noteq> []"
      by (simp add: filter_empty_conv)
    from find_service_last [OF this] a show False by simp
  qed
next
  assume "\<forall>r\<in>set rs. \<not> startswith (res_type r) t"
  then show "find_service t rs None = None"
    by (simp add: find_service_no_match)
qed

text \<open>
  C3 as stated: the endpoint of the first matching resource. An index with two resources
  whose types both start with the search prefix resolves to the second one.
\<close>

theorem find_service_first_counterexample:
  "find_service ''SearchQueryService/3.0''
     [Resource ''SearchQueryService/3.0.0-beta'' ''https://a/query'',
      Resource ''SearchQueryService/3.0.0-rc'' ''https://b/query''] None
   \<noteq> Some (res_id (hd (filter (\<lambda>r. startswith (res_type r) ''SearchQueryService/3.0'')
     [Resource ''SearchQueryService/3.0.0-beta'' ''https://a/query'',
      Resource ''SearchQueryService/3.0.0-rc'' ''https://b/query''])))"
  by (simp add: startswith_def)

text \<open>
  C3, amended. For every list of resources and every type prefix (the search prefix
  and the download prefix among them), when some resource's type starts with the prefix
  the loop leaves the endpoint of the last such resource in document order.
\<close>

theorem find_service_last_match:
  assumes "\<exists>r\<in>set resources. startswith (res_type r) type_prefix"
  shows "find_service type_prefix resources None
         = Some (res_id (last (filter (\<lambda>r. startswith (res_type r) type_prefix) resources)))"
proof -
  from assms have "filter (\<lambda>r. startswith (res_type r) type_prefix) resources \<noteq> []"
    by (simp add: filter_empty_conv)
  then show ?thesis
    by (rule find_service_last)
qed

theorem find_service_last_match_witness:
  "find_service ''PackageBaseAddress/3.0''
     [Resource ''PackageBaseAddress/3.0.0'' ''https://a/flat'',
      Resource ''SearchQueryService/3.0.0-rc'' ''https://b/query'',
      Resource ''PackageBaseAddress/3.0.0-rc'' ''https://c/flat''] None
   = Some ''https://c/flat''"
proof -
  let ?rs = "[Resource ''PackageBaseAddress/3.0.0'' ''https://a/flat'',
      Resource ''SearchQueryService/3.0.0-rc'' ''https://b/query'',
      Resource ''PackageBaseAddress/3.0.0-rc'' ''https://c/flat'']"
  have "\<exists>r\<in>set ?rs. startswith (res_type r) ''PackageBaseAddress/3.0''"
    by (simp add: startswith_def)
  from find_service_last_match [OF this] show ?thesis
    by (simp add: startswith_def)
qed

subsection \<open>C2 and C9: the download command\<close>

lemma select_package_first_of_sorted:
  assumes "packages \<noteq> []" and "\<forall>p\<in>set packages. parse (version p) \<noteq> None"
  shows "select_package parse packages
         = Inr (hd (sort_key (\<lambda>p. the (parse (version p))) packages))"
proof (cases "length packages > 1")
  case True
  have "sort_key (\<lambda>p. the (parse (version p))) packages \<noteq> []"
    using assms(1) by (metis length_0_conv length_sort)
  with True assms(2) show ?thesis
    by (simp add: select_package_def sort_if_many_def sorted_versions_ok first_package_def
             split: list.splits)
next
  case False
  with assms(1) obtain p where "packages = [p]"
    by (cases packages) auto
  then show ?thesis
    by (simp add: select_package_def sort_if_many_def first_package_def)
qed

text \<open>
  C2. The package to download is the first of the sorted results, and no package found
  is to be reported as such. When the only repository cannot be reached, the result list
  is empty and \<^verbatim>\<open>packages[0]\<close> raises \<^verbatim>\<open>IndexError\<close>, which nothing catches.
\<close>

theorem download_command_no_package:
  "select_package parse_version [] = Inl IndexError
   \<and> download_command (\<lambda>u. URLError) parse_version [''https://r/index.json''] ''Foo'' None
       = Inl IndexError"
  by (simp add: select_package_def sort_if_many_def first_package_def download_command_def
        package_search_def get_json_def or_None_def)

text \<open>
  C9. The download URL is to carry the lowercased name and version in every path
  segment. For a package named Foo with version 1.0.0-Beta the two directory segments
  keep their capitals; only the file name is lowercased.
\<close>

theorem download_command_url_case:
  "download_command
     (\<lambda>u. if u = ''https://r/index.json''
          then Body (IndexDocument
                 [Resource ''SearchQueryService/3.0.0-rc'' ''https://r/query'',
                  Resource ''PackageBaseAddress/3.0.0'' ''https://r/flat''])
          else if u = ''https://r/query?q=Foo&prerelease=true&semVerLevel=2.0.0''
          then Body (SearchDocument [PackageEntry ''Foo'' [VersionEntry ''Foo'' ''1.0.0-Beta'']])
          else URLError)
     parse_version [''https://r/index.json''] ''Foo'' None
   = Inr ''https://r/flat/Foo/1.0.0-Beta/foo.1.0.0-beta.nupkg''
   \<and> download_url ''https://r/flat'' (Package ''Foo'' ''1.0.0-Beta'' ''https://r/index.json'')
       \<noteq> ''https://r/flat/foo/1.0.0-beta/foo.1.0.0-beta.nupkg''"
  by code_simp

subsection \<open>C4: which failures one repository contains\<close>






subsection \<open>C5: searching every repository and sorting\<close>

lemma package_search_parsed:
  assumes "package_search net parse r n v = Inr res"
  shows "\<forall>q\<in>set res. parse (version q) \<noteq> None"
proof -
  from assms have "res = [] \<or> (\<exists>ps. search_results parse r v ps = Inr res)"
    unfolding package_search_def
    by (auto split: if_splits sum.splits option.splits document.splits)
  then show ?thesis
    using search_results_parsed by fastforce
qed

lemma search_all_ok:
  assumes "\<forall>r\<in>set repos. package_search net parse r n v = Inr (found r)"
  shows "search_all net parse repos n v = Inr (concat (map found repos))"
  using assms by (induction repos) simp_all

lemma search_all_err:
  assumes "r \<in> set repos" and "package_search net parse r n v = Inl e"
  shows "\<exists>e'. search_all net parse repos n v = Inl e'"
  using assms by (induction repos) (auto split: sum.splits)

lemma search_all_first_err:
  assumes "\<forall>q\<in>set earlier. \<exists>c. package_search net parse q n v = Inr c"
    and "package_search net parse r n v = Inl e"
  shows "search_all net parse (earlier @ r # later) n v = Inl e"
  using assms by (induction earlier) (auto split: sum.splits)

lemma sort_key_short: "length xs \<le> 1 \<Longrightarrow> sort_key f xs = xs"
  by (cases xs) auto

text \<open>
  C5. When the search of every repository in the list returns, \<^verbatim>\<open>search_command\<close>
  searches them in list order, concatenates what they found and sorts the concatenation
  by the version key: the result is ascending, has the same packages, and packages with
  the same key stand in the order of the concatenation. \<^verbatim>\<open>download_command\<close> sorts the
  same concatenation to the same list, takes its first package (\<^verbatim>\<open>IndexError\<close> when
  there is none) and goes on to resolve the content service for that package.
\<close>

theorem search_command_stable_sort:
  assumes "\<forall>r\<in>set repository_urls.
             package_search net parse r (Some package_name) (or_None package_version)
             = Inr (found r)"
  shows "\<exists>results.
           search_command net parse repository_urls package_name package_version = Inr results
           \<and> sort_if_many parse (concat (map found repository_urls)) = Inr results
           \<and> sorted (map (\<lambda>p. the (parse (version p))) results)
           \<and> mset results = mset (concat (map found repository_urls))
           \<and> (\<forall>k. filter (\<lambda>p. parse (version p) = Some k) results
                  = filter (\<lambda>p. parse (version p) = Some k)
                      (concat (map found repository_urls)))
           \<and> download_command net parse repository_urls package_name package_version
               = (case first_package results of
                    Inl e \<Rightarrow> Inl e
                  | Inr package \<Rightarrow>
                      (case get_json net (repository package) of
                         Inl e \<Rightarrow> Inl e
                       | Inr None \<Rightarrow> Inl TypeError
                       | Inr (Some (SearchDocument data)) \<Rightarrow> Inl KeyError
                       | Inr (Some (IndexDocument resources)) \<Rightarrow>
                           (case find_service ''PackageBaseAddress/3.0'' resources None of
                              None \<Rightarrow> Inl UnboundLocalError
                            | Some content_service_url \<Rightarrow>
                                if content_service_url = [] then Inl NameError
                                else Inr (download_url content_service_url package))))"
proof -
  let ?all = "concat (map found repository_urls)"
  let ?key = "\<lambda>p. the (parse (version p))"
  have gathered: "search_all net parse repository_urls (Some package_name)
                    (or_None package_version) = Inr ?all"
    using assms by (rule search_all_ok)
  have parsed: "\<forall>p\<in>set ?all. parse (version p) \<noteq> None"
  proof
    fix p assume "p \<in> set ?all"
    then obtain r where r: "r \<in> set repository_urls" and p: "p \<in> set (found r)"
      by auto
    from r assms have "package_search net parse r (Some package_name)
                         (or_None package_version) = Inr (found r)"
      by simp
    from package_search_parsed [OF this] p show "parse (version p) \<noteq> None"
      by simp
  qed
  have sorted_all: "py_sorted (\<lambda>p. version_sort_key parse (version p)) ?all
                    = Inr (sort_key ?key ?all)"
    using parsed by (rule sorted_versions_ok)
  have search: "search_command net parse repository_urls package_name package_version
                = Inr (sort_key ?key ?all)"
    by (simp add: search_command_def gathered sorted_all)
  have download: "sort_if_many parse ?all = Inr (sort_key ?key ?all)"
  proof (cases "length ?all > 1")
    case True
    then show ?thesis
      by (simp add: sort_if_many_def sorted_all)
  next
    case False
    then have "sort_key ?key ?all = ?all"
      by (simp add: sort_key_short)
    with False show ?thesis
      by (simp add: sort_if_many_def)
  qed
  have ascending: "sorted (map ?key (sort_key ?key ?all))"
    by (rule sorted_sort_key)
  have same: "mset (sort_key ?key ?all) = mset ?all"
    by (rule mset_sort)
  have stable: "filter (\<lambda>p. parse (version p) = Some k) (sort_key ?key ?all)
                = filter (\<lambda>p. parse (version p) = Some k) ?all" for k
  proof -
    have "filter (\<lambda>p. parse (version p) = Some k) (sort_key ?key ?all)
          = filter (\<lambda>p. ?key p = k) (sort_key ?key ?all)"
      using parsed by (intro filter_cong) auto
    also have "\<dots> = filter (\<lambda>p. ?key p = k) ?all"
      by (rule sort_key_stable)
    also have "\<dots> = filter (\<lambda>p. parse (version p) = Some k) ?all"
      using parsed by (intro filter_cong) auto
    finally show ?thesis .
  qed
  have selected: "select_package parse ?all = first_package (sort_key ?key ?all)"
    by (simp add: select_package_def download)
  have fetched: "download_command net parse repository_urls package_name package_version
      = (case first_package (sort_key ?key ?all) of
           Inl e \<Rightarrow> Inl e
         | Inr package \<Rightarrow>
             (case get_json net (repository package) of
                Inl e \<Rightarrow> Inl e
              | Inr None \<Rightarrow> Inl TypeError
              | Inr (Some (SearchDocument data)) \<Rightarrow> Inl KeyError
              | Inr (Some (IndexDocument resources)) \<Rightarrow>
                  (case find_service ''PackageBaseAddress/3.0'' resources None of
                     None \<Rightarrow> Inl UnboundLocalError
                   | Some content_service_url \<Rightarrow>
                       if content_service_url = [] then Inl NameError
                       else Inr (download_url content_service_url package))))"
    by (simp add: download_command_def gathered selected)
  from search download ascending same stable fetched show ?thesis
    by blast
qed

lemmas run_search =
  package_search_def get_json_def startswith_def search_query_def or_None_def py_sorted_def
  version_sort_key_def parse_version_def numeric_def is_digit_def version_key_def
  strip_zeros_def to_nat_def

theorem search_command_stable_sort_witness:
  "(\<exists>results.
     search_command
       (\<lambda>u. if u = ''https://a/index.json''
            then Body (IndexDocument
                   [Resource ''SearchQueryService/3.0.0-rc'' ''https://a/query'',
                    Resource ''PackageBaseAddress/3.0.0'' ''https://a/flat''])
            else if u = ''https://b/index.json''
            then Body (IndexDocument
                   [Resource ''SearchQueryService/3.0.0-rc'' ''https://b/query'',
                    Resource ''PackageBaseAddress/3.0.0'' ''https://b/flat''])
            else if u = ''https://a/query?q=Foo&prerelease=true&semVerLevel=2.0.0''
            then Body (SearchDocument [PackageEntry ''Foo'' [VersionEntry ''a1'' ''1.0.0'']])
            else if u = ''https://b/query?q=Foo&prerelease=true&semVerLevel=2.0.0''
            then Body (SearchDocument
                   [PackageEntry ''Foo'' [VersionEntry ''b1'' ''1.0.0'', VersionEntry ''b0'' ''0.9.0'']])
            else URLError)
       parse_version [''https://a/index.json'', ''https://b/index.json''] ''Foo'' None
     = Inr results
     \<and> filter (\<lambda>p. parse_version (version p) = Some (version_key [1] None)) results
       = [Package ''a1'' ''1.0.0'' ''https://a/index.json'',
          Package ''b1'' ''1.0.0'' ''https://b/index.json''])
   \<and> download_command
       (\<lambda>u. if u = ''https://a/index.json''
            then Body (IndexDocument
                   [Resource ''SearchQueryService/3.0.0-rc'' ''https://a/query'',
                    Resource ''PackageBaseAddress/3.0.0'' ''https://a/flat''])
            else if u = ''https://b/index.json''
            then Body (IndexDocument
                   [Resource ''SearchQueryService/3.0.0-rc'' ''https://b/query'',
                    Resource ''PackageBaseAddress/3.0.0'' ''https://b/flat''])
            else if u = ''https://a/query?q=Foo&prerelease=true&semVerLevel=2.0.0''
            then Body (SearchDocument [PackageEntry ''Foo'' [VersionEntry ''a1'' ''1.0.0'']])
            else if u = ''https://b/query?q=Foo&prerelease=true&semVerLevel=2.0.0''
            then Body (SearchDocument
                   [PackageEntry ''Foo'' [VersionEntry ''b1'' ''1.0.0'', VersionEntry ''b0'' ''0.9.0'']])
            else URLError)
       parse_version [''https://a/index.json'', ''https://b/index.json''] ''Foo'' None
     = Inr ''https://b/flat/b0/0.9.0/b0.0.9.0.nupkg''"
proof -
  let ?net = "\<lambda>u. if u = ''https://a/index.json''
            then Body (IndexDocument
                   [Resource ''SearchQueryService/3.0.0-rc'' ''https://a/query'',
                    Resource ''PackageBaseAddress/3.0.0'' ''https://a/flat''])
            else if u = ''https://b/index.json''
            then Body (IndexDocument
                   [Resource ''SearchQueryService/3.0.0-rc'' ''https://b/query'',
                    Resource ''PackageBaseAddress/3.0.0'' ''https://b/flat''])
            else if u = ''https://a/query?q=Foo&prerelease=true&semVerLevel=2.0.0''
            then Body (SearchDocument [PackageEntry ''Foo'' [VersionEntry ''a1'' ''1.0.0'']])
            else if u = ''https://b/query?q=Foo&prerelease=true&semVerLevel=2.0.0''
            then Body (SearchDocument
                   [PackageEntry ''Foo'' [VersionEntry ''b1'' ''1.0.0'', VersionEntry ''b0'' ''0.9.0'']])
            else URLError"
  let ?found = "\<lambda>r. if r = ''https://a/index.json''
            then [Package ''a1'' ''1.0.0'' ''https://a/index.json'']
            else [Package ''b0'' ''0.9.0'' ''https://b/index.json'',
                  Package ''b1'' ''1.0.0'' ''https://b/index.json'']"
  let ?repos = "[''https://a/index.json'', ''https://b/index.json'']"
  have a: "package_search ?net parse_version ''https://a/index.json'' (Some ''Foo'') (or_None None)
           = Inr (?found ''https://a/index.json'')"
    by (simp add: run_search)
  have b: "package_search ?net parse_version ''https://b/index.json'' (Some ''Foo'') (or_None None)
           = Inr (?found ''https://b/index.json'')"
    by (simp add: run_search)
  have each: "\<forall>r\<in>set ?repos.
                package_search ?net parse_version r (Some ''Foo'') (or_None None) = Inr (?found r)"
    using a b by simp
  from search_command_stable_sort [OF each] obtain results where
    res: "search_command ?net parse_version ?repos ''Foo'' None = Inr results"
    and many: "sort_if_many parse_version (concat (map ?found ?repos)) = Inr results"
    and stable: "\<forall>k. filter (\<lambda>p. parse_version (version p) = Some k) results
                 = filter (\<lambda>p. parse_version (version p) = Some k) (concat (map ?found ?repos))"
    and fetched: "download_command ?net parse_version ?repos ''Foo'' None
      = (case first_package results of
           Inl e \<Rightarrow> Inl e
         | Inr package \<Rightarrow>
             (case get_json ?net (repository package) of
                Inl e \<Rightarrow> Inl e
              | Inr None \<Rightarrow> Inl TypeError
              | Inr (Some (SearchDocument data)) \<Rightarrow> Inl KeyError
              | Inr (Some (IndexDocument resources)) \<Rightarrow>
                  (case find_service ''PackageBaseAddress/3.0'' resources None of
                     None \<Rightarrow> Inl UnboundLocalError
                   | Some content_service_url \<Rightarrow>
                       if content_service_url = [] then Inl NameError
                       else Inr (download_url content_service_url package))))"
    by blast
  have "filter (\<lambda>p. parse_version (version p) = Some (version_key [1] None)) results
        = filter (\<lambda>p. parse_version (version p) = Some (version_key [1] None))
            (concat (map ?found ?repos))"
    using stable by blast
  also have "\<dots> = [Package ''a1'' ''1.0.0'' ''https://a/index.json'',
                     Package ''b1'' ''1.0.0'' ''https://b/index.json'']"
    by (simp add: run_search)
  finally have ties: "filter (\<lambda>p. parse_version (version p) = Some (version_key [1] None)) results
                      = [Package ''a1'' ''1.0.0'' ''https://a/index.json'',
                         Package ''b1'' ''1.0.0'' ''https://b/index.json'']" .
  have "sort_if_many parse_version (concat (map ?found ?repos))
        = Inr [Package ''b0'' ''0.9.0'' ''https://b/index.json'',
               Package ''a1'' ''1.0.0'' ''https://a/index.json'',
               Package ''b1'' ''1.0.0'' ''https://b/index.json'']"
    by (simp add: sort_if_many_def run_search)
  with many have results: "results = [Package ''b0'' ''0.9.0'' ''https://b/index.json'',
               Package ''a1'' ''1.0.0'' ''https://a/index.json'',
               Package ''b1'' ''1.0.0'' ''https://b/index.json'']"
    by simp
  have lowest: "download_command ?net parse_version ?repos ''Foo'' None
                = Inr ''https://b/flat/b0/0.9.0/b0.0.9.0.nupkg''"
    unfolding fetched results
    by (simp add: first_package_def get_json_def startswith_def download_url_def lower_def
          lower_char_def)
  from res ties lowest show ?thesis
    by blast
qed

subsection \<open>C7: no version argument\<close>

lemma emit_versions_no_spec:
  "emit_versions r None vs = map (\<lambda>v. Package (ver_id v) (ver_version v) r) vs"
  by (induction vs) simp_all

lemma mset_concat_sort_key:
  "mset (concat (map f (sort_key g xs))) = mset (concat (map f xs))"
proof -
  have "mset (concat (map f (sort_key g xs)))
        = sum_mset (mset (map (\<lambda>x. mset (f x)) (sort_key g xs)))"
    by (simp add: mset_concat sum_mset_sum_list [symmetric] comp_def del: mset_map)
  also have "\<dots> = sum_mset (mset (map (\<lambda>x. mset (f x)) xs))"
    by simp
  also have "\<dots> = mset (concat (map f xs))"
    by (simp add: mset_concat sum_mset_sum_list [symmetric] comp_def del: mset_map)
  finally show ?thesis .
qed

lemma mset_no_spec_results:
  "mset (concat (map (\<lambda>p. map h (sort_key k (versions p))) (sort_key pkg_id data)))
   = mset (map h (concat (map versions data)))"
proof -
  have "mset (concat (map (\<lambda>p. map h (sort_key k (versions p))) (sort_key pkg_id data)))
        = mset (concat (map (\<lambda>p. map h (sort_key k (versions p))) data))"
    by (rule mset_concat_sort_key)
  also have "\<dots> = mset (map h (concat (map versions data)))"
    by (induction data) simp_all
  finally show ?thesis .
qed

text \<open>
  C7. With no version argument (\<open>None\<close> or the empty string) the commands pass \<open>None\<close>
  to the search, the inner loop emits every version entry it is given, and a search that
  reaches the result document returns one package for every version entry of every
  package entry, none filtered out (the version strings being ones the library parses).
\<close>

theorem no_spec_emits_every_version:
  assumes "args_package_version = None \<or> args_package_version = Some []"
    and "package_name \<noteq> []"
    and "net repository_url = Body (IndexDocument resources)"
    and "find_service ''SearchQueryService/3.0'' resources None = Some url"
    and "url \<noteq> []"
    and "net (search_query url package_name) = Body (SearchDocument data)"
    and "\<forall>p\<in>set data. \<forall>v\<in>set (versions p). parse (ver_version v) \<noteq> None"
  shows "or_None args_package_version = None
     \<and> emit_versions repository_url (or_None args_package_version) vs
         = map (\<lambda>v. Package (ver_id v) (ver_version v) repository_url) vs
     \<and> package_search net parse repository_url (Some package_name)
           (or_None args_package_version)
         = Inr (concat (map (\<lambda>p. map (\<lambda>v. Package (ver_id v) (ver_version v) repository_url)
                                 (sort_key (\<lambda>v. the (parse (ver_version v))) (versions p)))
                  (sort_key pkg_id data)))
     \<and> (\<exists>found. package_search net parse repository_url (Some package_name)
                   (or_None args_package_version) = Inr found
          \<and> mset found
              = mset (map (\<lambda>v. Package (ver_id v) (ver_version v) repository_url)
                       (concat (map versions data))))"
proof -
  let ?mk = "\<lambda>v. Package (ver_id v) (ver_version v) repository_url"
  let ?out = "concat (map (\<lambda>p. map ?mk (sort_key (\<lambda>v. the (parse (ver_version v))) (versions p)))
                (sort_key pkg_id data))"
  have none: "or_None args_package_version = None"
    using assms(1) by (auto simp: or_None_def)
  have emit: "emit_versions repository_url (or_None args_package_version) vs = map ?mk vs"
    by (simp add: none emit_versions_no_spec)
  have "\<forall>p\<in>set (sort_key pkg_id data). \<forall>v\<in>set (versions p). parse (ver_version v) \<noteq> None"
    using assms(7) by simp
  then have "search_results parse repository_url None (sort_key pkg_id data) = Inr ?out"
    by (simp add: search_results_ok emit_versions_no_spec)
  then have search: "package_search net parse repository_url (Some package_name)
                       (or_None args_package_version) = Inr ?out"
    using assms(2-6) by (simp add: package_search_def get_json_def none)
  have "mset ?out = mset (map ?mk (concat (map versions data)))"
    by (rule mset_no_spec_results)
  with none emit search show ?thesis
    by blast
qed

theorem no_spec_emits_every_version_witness:
  "package_search
     (\<lambda>u. if u = ''https://a/index.json''
          then Body (IndexDocument [Resource ''SearchQueryService/3.0.0-rc'' ''https://a/query''])
          else if u = ''https://a/query?q=Foo&prerelease=true&semVerLevel=2.0.0''
          then Body (SearchDocument
                 [PackageEntry ''Foo''
                    [VersionEntry ''v2'' ''2.0.0'', VersionEntry ''v1'' ''1.0.0'',
                     VersionEntry ''vb'' ''1.1.0-beta'']])
          else URLError)
     parse_version ''https://a/index.json'' (Some ''Foo'') (or_None (Some []))
   = Inr [Package ''v1'' ''1.0.0'' ''https://a/index.json'',
          Package ''vb'' ''1.1.0-beta'' ''https://a/index.json'',
          Package ''v2'' ''2.0.0'' ''https://a/index.json'']"
proof -
  let ?net = "\<lambda>u. if u = ''https://a/index.json''
          then Body (IndexDocument [Resource ''SearchQueryService/3.0.0-rc'' ''https://a/query''])
          else if u = ''https://a/query?q=Foo&prerelease=true&semVerLevel=2.0.0''
          then Body (SearchDocument
                 [PackageEntry ''Foo''
                    [VersionEntry ''v2'' ''2.0.0'', VersionEntry ''v1'' ''1.0.0'',
                     VersionEntry ''vb'' ''1.1.0-beta'']])
          else URLError"
  let ?data = "[PackageEntry ''Foo''
                    [VersionEntry ''v2'' ''2.0.0'', VersionEntry ''v1'' ''1.0.0'',
                     VersionEntry ''vb'' ''1.1.0-beta'']]"
  have h1: "Some [] = None \<or> Some [] = Some ([]::string)" by simp
  have h2: "''Foo'' \<noteq> []" by simp
  have h3: "?net ''https://a/index.json''
            = Body (IndexDocument [Resource ''SearchQueryService/3.0.0-rc'' ''https://a/query''])"
    by simp
  have h4: "find_service ''SearchQueryService/3.0''
              [Resource ''SearchQueryService/3.0.0-rc'' ''https://a/query''] None
            = Some ''https://a/query''"
    by (simp add: startswith_def)
  have h5: "''https://a/query'' \<noteq> []" by simp
  have h6: "?net (search_query ''https://a/query'' ''Foo'') = Body (SearchDocument ?data)"
    by (simp add: search_query_def)
  have h7: "\<forall>p\<in>set ?data. \<forall>v\<in>set (versions p). parse_version (ver_version v) \<noteq> None"
    by (simp add: parse_version_def numeric_def is_digit_def del: not_None_eq)
  have "package_search ?net parse_version ''https://a/index.json'' (Some ''Foo'')
          (or_None (Some []))
        = Inr (concat (map (\<lambda>p. map (\<lambda>v. Package (ver_id v) (ver_version v) ''https://a/index.json'')
                                 (sort_key (\<lambda>v. the (parse_version (ver_version v))) (versions p)))
                 (sort_key pkg_id ?data)))"
    using no_spec_emits_every_version [OF h1 h2 h3 h4 h5 h6 h7] by blast
  also have "\<dots> = Inr [Package ''v1'' ''1.0.0'' ''https://a/index.json'',
                      Package ''vb'' ''1.1.0-beta'' ''https://a/index.json'',
                      Package ''v2'' ''2.0.0'' ''https://a/index.json'']"
    by code_simp
  finally show ?thesis .
qed

subsection \<open>C8: a version string that does not parse\<close>

lemma or_None_not_empty: "or_None s \<noteq> Some []"
  by (simp add: or_None_def split: option.splits)

text \<open>
  C8. When the result document of a repository holds a version string that the library
  does not parse, the search of that repository ends in \<open>VersionParseError\<close>, whatever
  the version argument; nothing catches it, so \<^verbatim>\<open>search_command\<close> and
  \<^verbatim>\<open>download_command\<close> over any repository list that contains this repository end in an
  error too, and in this error when the repositories before it were searched without one.
\<close>

theorem unparseable_version_aborts:
  assumes "package_name \<noteq> []"
    and "net repository_url = Body (IndexDocument resources)"
    and "find_service ''SearchQueryService/3.0'' resources None = Some url"
    and "url \<noteq> []"
    and "net (search_query url package_name) = Body (SearchDocument data)"
    and "p \<in> set data"
    and "v \<in> set (versions p)"
    and "parse (ver_version v) = None"
  shows "package_search net parse repository_url (Some package_name)
           (or_None args_package_version) = Inl VersionParseError
     \<and> (repository_url \<in> set repository_urls \<longrightarrow>
          (\<exists>e. search_command net parse repository_urls package_name args_package_version
                 = Inl e)
          \<and> (\<exists>e. download_command net parse repository_urls package_name args_package_version
                 = Inl e))
     \<and> ((\<forall>q\<in>set earlier. \<exists>found. package_search net parse q (Some package_name)
                                      (or_None args_package_version) = Inr found) \<longrightarrow>
          search_command net parse (earlier @ repository_url # later) package_name
            args_package_version = Inl VersionParseError
          \<and> download_command net parse (earlier @ repository_url # later) package_name
              args_package_version = Inl VersionParseError)"
proof -
  let ?spec = "or_None args_package_version"
  have "p \<in> set (sort_key pkg_id data)"
    using assms(6) by simp
  then have "search_results parse repository_url ?spec (sort_key pkg_id data)
             = Inl VersionParseError"
    using assms(7,8) by (rule search_results_err)
  then have one: "package_search net parse repository_url (Some package_name) ?spec
                  = Inl VersionParseError"
    using assms(1-5) by (simp add: package_search_def get_json_def or_None_not_empty)
  have some: "(\<exists>e. search_command net parse repository_urls package_name args_package_version
                    = Inl e)
              \<and> (\<exists>e. download_command net parse repository_urls package_name
                        args_package_version = Inl e)"
    if "repository_url \<in> set repository_urls"
  proof -
    from search_all_err [OF that one] obtain e where
      "search_all net parse repository_urls (Some package_name) ?spec = Inl e"
      by blast
    then show ?thesis
      by (simp add: search_command_def download_command_def)
  qed
  have this_one: "search_command net parse (earlier @ repository_url # later) package_name
                    args_package_version = Inl VersionParseError
                  \<and> download_command net parse (earlier @ repository_url # later) package_name
                      args_package_version = Inl VersionParseError"
    if "\<forall>q\<in>set earlier. \<exists>found. package_search net parse q (Some package_name) ?spec
                                  = Inr found"
  proof -
    from search_all_first_err [OF that one]
    have "search_all net parse (earlier @ repository_url # later) (Some package_name) ?spec
          = Inl VersionParseError" .
    then show ?thesis
      by (simp add: search_command_def download_command_def)
  qed
  from one some this_one show ?thesis
    by blast
qed

theorem unparseable_version_aborts_witness:
  "search_command
     (\<lambda>u. if u = ''https://a/index.json''
          then Body (IndexDocument [Resource ''SearchQueryService/3.0.0-rc'' ''https://a/query''])
          else if u = ''https://a/query?q=Foo&prerelease=true&semVerLevel=2.0.0''
          then Body (SearchDocument
                 [PackageEntry ''Foo''
                    [VersionEntry ''v1'' ''1.0.0'', VersionEntry ''vl'' ''latest'']])
          else URLError)
     parse_version [''https://b/index.json'', ''https://a/index.json''] ''Foo'' (Some ''1.*'')
   = Inl VersionParseError"
proof -
  let ?net = "\<lambda>u. if u = ''https://a/index.json''
          then Body (IndexDocument [Resource ''SearchQueryService/3.0.0-rc'' ''https://a/query''])
          else if u = ''https://a/query?q=Foo&prerelease=true&semVerLevel=2.0.0''
          then Body (SearchDocument
                 [PackageEntry ''Foo''
                    [VersionEntry ''v1'' ''1.0.0'', VersionEntry ''vl'' ''latest'']])
          else URLError"
  let ?data = "[PackageEntry ''Foo''
                    [VersionEntry ''v1'' ''1.0.0'', VersionEntry ''vl'' ''latest'']]"
  have h1: "''Foo'' \<noteq> []" by simp
  have h2: "?net ''https://a/index.json''
            = Body (IndexDocument [Resource ''SearchQueryService/3.0.0-rc'' ''https://a/query''])"
    by simp
  have h3: "find_service ''SearchQueryService/3.0''
              [Resource ''SearchQueryService/3.0.0-rc'' ''https://a/query''] None
            = Some ''https://a/query''"
    by (simp add: startswith_def)
  have h4: "''https://a/query'' \<noteq> []" by simp
  have h5: "?net (search_query ''https://a/query'' ''Foo'') = Body (SearchDocument ?data)"
    by (simp add: search_query_def)
  have h6: "PackageEntry ''Foo'' [VersionEntry ''v1'' ''1.0.0'', VersionEntry ''vl'' ''latest'']
            \<in> set ?data"
    by simp
  have h7: "VersionEntry ''vl'' ''latest''
            \<in> set (versions (PackageEntry ''Foo''
                               [VersionEntry ''v1'' ''1.0.0'', VersionEntry ''vl'' ''latest'']))"
    by simp
  have h8: "parse_version (ver_version (VersionEntry ''vl'' ''latest'')) = None"
    by (simp add: parse_version_def numeric_def is_digit_def)
  have before: "\<forall>q\<in>set [''https://b/index.json''].
                  \<exists>found. package_search ?net parse_version q (Some ''Foo'')
                            (or_None (Some ''1.*'')) = Inr found"
    by (simp add: package_search_def get_json_def or_None_def)
  from unparseable_version_aborts
      [where net = ?net and parse = parse_version and repository_url = "''https://a/index.json''"
         and args_package_version = "Some ''1.*''" and earlier = "[''https://b/index.json'']"
         and later = "[]",
       OF h1 h2 h3 h4 h5 h6 h7 h8]
    before
  have "search_command ?net parse_version ([''https://b/index.json''] @ ''https://a/index.json'' # [])
          ''Foo'' (Some ''1.*'') = Inl VersionParseError"
    by blast
  then show ?thesis
    by simp
qed

subsection \<open>C6: a pre-release sorts below its release\<close>

lemma parse_version_release:
  assumes "CHR ''-'' \<notin> set r" and "CHR ''+'' \<notin> set r"
  shows "parse_version r =
           (if takeWhile numeric (split_on (CHR ''.'') r) = [] then None
            else Some (version_key (map to_nat (takeWhile numeric (split_on (CHR ''.'') r))) None))"
proof -
  have plus: "takeWhile (\<lambda>c. c \<noteq> CHR ''+'') r = r"
    using assms(2) by (auto simp: takeWhile_eq_all_conv)
  have dash: "takeWhile (\<lambda>c. c \<noteq> CHR ''-'') r = r"
    using assms(1) by (auto simp: takeWhile_eq_all_conv)
  have rest: "dropWhile (\<lambda>c. c \<noteq> CHR ''-'') r = []"
    using assms(1) by auto
  show ?thesis
    by (simp add: parse_version_def plus dash rest Let_def)
qed

lemma parse_version_prerelease:
  assumes "CHR ''-'' \<notin> set r" and "CHR ''+'' \<notin> set r"
  shows "parse_version (r @ ''-'' @ pre) =
           (if takeWhile numeric (split_on (CHR ''.'') r) = [] then None
            else Some (version_key (map to_nat (takeWhile numeric (split_on (CHR ''.'') r)))
                         (Some (map pre_ident
                            (split_on (CHR ''.'') (takeWhile (\<lambda>c. c \<noteq> CHR ''+'') pre))))))"
proof -
  let ?core = "r @ ''-'' @ takeWhile (\<lambda>c. c \<noteq> CHR ''+'') pre"
  have plus: "takeWhile (\<lambda>c. c \<noteq> CHR ''+'') (r @ ''-'' @ pre) = ?core"
    using assms(2) by (subst takeWhile_append2) auto
  have dash: "takeWhile (\<lambda>c. c \<noteq> CHR ''-'') ?core = r"
    using assms(1) by (subst takeWhile_append2) auto
  have rest: "dropWhile (\<lambda>c. c \<noteq> CHR ''-'') ?core
              = ''-'' @ takeWhile (\<lambda>c. c \<noteq> CHR ''+'') pre"
    using assms(1) by (subst dropWhile_append2) auto
  show ?thesis
    unfolding parse_version_def plus Let_def dash rest by simp
qed

lemma version_key_prerelease_less: "version_key release (Some ids) < version_key release None"
  by (simp add: version_key_def)

lemma prerelease_string_below:
  assumes "CHR ''-'' \<notin> set r" and "CHR ''+'' \<notin> set r" and "parse_version r = Some k"
  shows "\<exists>k'. parse_version (r @ ''-'' @ pre) = Some k' \<and> k' < k"
proof -
  let ?release = "takeWhile numeric (split_on (CHR ''.'') r)"
  from assms(3) have ne: "?release \<noteq> []" and k: "k = version_key (map to_nat ?release) None"
    unfolding parse_version_release [OF assms(1,2)] by (auto split: if_splits)
  from ne have "parse_version (r @ ''-'' @ pre)
                = Some (version_key (map to_nat ?release)
                         (Some (map pre_ident
                            (split_on (CHR ''.'') (takeWhile (\<lambda>c. c \<noteq> CHR ''+'') pre)))))"
    unfolding parse_version_prerelease [OF assms(1,2)] by simp
  with k show ?thesis
    using version_key_prerelease_less by blast
qed

lemma sorted_pair_below:
  assumes "parse a = Some ka" and "parse b = Some kb" and "kb < ka"
  shows "py_sorted (version_sort_key parse) [a, b] = Inr [b, a]"
proof -
  have "py_sorted (\<lambda>x. version_sort_key parse x) [a, b]
        = Inr (sort_key (\<lambda>x. the (parse x)) [a, b])"
    using assms(1,2) by (intro sorted_versions_ok) auto
  then show ?thesis
    using assms by auto
qed

text \<open>
  C6. Sorting 2.0.0, 1.0.0, 1.5.0-beta by the version key gives 1.0.0, 1.5.0-beta,
  2.0.0. The key of a pre-release is strictly below the key of the release with the same
  release segments: for every release string \<open>r\<close> that parses (no \<open>-\<close> and no \<open>+\<close> in
  it) and every suffix \<open>pre\<close>, the string \<open>r-pre\<close> parses to a key strictly below the
  key of \<open>r\<close>, and sorting the two puts \<open>r-pre\<close> first; so 1.5.0-beta is below 1.5.0.
\<close>

theorem prerelease_sorts_below_release:
  "py_sorted (version_sort_key parse_version) [''2.0.0'', ''1.0.0'', ''1.5.0-beta'']
     = Inr [''1.0.0'', ''1.5.0-beta'', ''2.0.0'']
   \<and> version_key release (Some ids) < version_key release None
   \<and> (CHR ''-'' \<notin> set r \<and> CHR ''+'' \<notin> set r \<and> parse_version r = Some k \<longrightarrow>
        (\<exists>k'. parse_version (r @ ''-'' @ pre) = Some k' \<and> k' < k)
        \<and> py_sorted (version_sort_key parse_version) [r, r @ ''-'' @ pre]
            = Inr [r @ ''-'' @ pre, r])
   \<and> parse_version ''1.5.0-beta'' = Some (version_key [1, 5, 0] (Some [pre_ident ''beta'']))
   \<and> parse_version ''1.5.0'' = Some (version_key [1, 5, 0] None)"
proof -
  have order: "py_sorted (version_sort_key parse_version) [''2.0.0'', ''1.0.0'', ''1.5.0-beta'']
               = Inr [''1.0.0'', ''1.5.0-beta'', ''2.0.0'']"
    by code_simp
  have below: "version_key release (Some ids) < version_key release None"
    by (rule version_key_prerelease_less)
  have strings: "(\<exists>k'. parse_version (r @ ''-'' @ pre) = Some k' \<and> k' < k)
                 \<and> py_sorted (version_sort_key parse_version) [r, r @ ''-'' @ pre]
                     = Inr [r @ ''-'' @ pre, r]"
    if "CHR ''-'' \<notin> set r \<and> CHR ''+'' \<notin> set r \<and> parse_version r = Some k"
  proof -
    from that have r: "CHR ''-'' \<notin> set r" "CHR ''+'' \<notin> set r" "parse_version r = Some k"
      by simp_all
    from prerelease_string_below [OF r] obtain k' where
      k': "parse_version (r @ ''-'' @ pre) = Some k'" "k' < k"
      by blast
    from sorted_pair_below [OF r(3) k'] k' show ?thesis
      by blast
  qed
  have beta: "parse_version ''1.5.0-beta''
              = Some (version_key [1, 5, 0] (Some [pre_ident ''beta'']))"
    by code_simp
  have final: "parse_version ''1.5.0'' = Some (version_key [1, 5, 0] None)"
    by code_simp
  from order below strings beta final show ?thesis
    by blast
qed

theorem prerelease_sorts_below_release_witness:
  "the (parse_version ''1.5.0-beta'') < the (parse_version ''1.5.0'')
   \<and> py_sorted (version_sort_key parse_version) [''1.5.0'', ''1.5.0-beta'']
       = Inr [''1.5.0-beta'', ''1.5.0'']"
proof -
  have dash: "CHR ''-'' \<notin> set ''1.5.0''" by simp
  have plus: "CHR ''+'' \<notin> set ''1.5.0''" by simp
  have final: "parse_version ''1.5.0'' = Some (version_key [1, 5, 0] None)"
    by code_simp
  from prerelease_sorts_below_release
         [of "[1, 5, 0]" "[pre_ident ''beta'']" "''1.5.0''" "version_key [1, 5, 0] None" "''beta''"]
       dash plus final
  have "(\<exists>k'. parse_version (''1.5.0'' @ ''-'' @ ''beta'') = Some k'
              \<and> k' < version_key [1, 5, 0] None)
        \<and> py_sorted (version_sort_key parse_version) [''1.5.0'', ''1.5.0'' @ ''-'' @ ''beta'']
            = Inr [''1.5.0'' @ ''-'' @ ''beta'', ''1.5.0'']"
    by blast
  with final show ?thesis
    by auto
qed

end
